theory Spec2Isabelle
  imports Main
begin

section \<open>Python text\<close>

text \<open>
  A Python \<open>str\<close> is a sequence of Unicode code points, so texts are lists of natural
  numbers. The literals of the source are ASCII and are written \<open>ustr ''...''\<close>.
\<close>

type_synonym str = "nat list"

definition ustr :: "string \<Rightarrow> str" where
  "ustr cs = map of_char cs"

text \<open>
  \<open>str.strip()\<close> removes the characters of \<open>str.isspace\<close>: U+0009..U+000D,
  U+001C..U+0020, U+0085, U+00A0, U+1680, U+2000..U+200A, U+2028, U+2029, U+202F, U+205F
  and U+3000.
\<close>

definition isspace :: "nat \<Rightarrow> bool" where
  "isspace c =
     ((9 \<le> c \<and> c \<le> 13) \<or> (28 \<le> c \<and> c \<le> 32) \<or> c = 133 \<or> c = 160 \<or> c = 5760 \<or>
      (8192 \<le> c \<and> c \<le> 8202) \<or> c = 8232 \<or> c = 8233 \<or> c = 8239 \<or> c = 8287 \<or> c = 12288)"

definition strip :: "str \<Rightarrow> str" where
  "strip s = rev (dropWhile isspace (rev (dropWhile isspace s)))"

text \<open>
  \<open>str.splitlines()\<close> breaks at \<open>\n\<close>, \<open>\r\<close>, \<open>\r\n\<close>, U+000B, U+000C,
  U+001C..U+001E, U+0085, U+2028 and U+2029; the breaks are not part of the lines, and a
  text that ends in a break has no empty last line.
\<close>

definition islinebreak :: "nat \<Rightarrow> bool" where
  "islinebreak c = ((10 \<le> c \<and> c \<le> 13) \<or> (28 \<le> c \<and> c \<le> 30) \<or> c = 133 \<or> c = 8232 \<or> c = 8233)"

fun skip_break :: "str \<Rightarrow> str" where
  "skip_break [] = []"
| "skip_break [c] = []"
| "skip_break (c # d # cs) = (if c = 13 \<and> d = 10 then cs else d # cs)"

function splitlines :: "str \<Rightarrow> str list" where
  "splitlines text =
     (if text = [] then []
      else takeWhile (\<lambda>c. \<not> islinebreak c) text
             # splitlines (skip_break (dropWhile (\<lambda>c. \<not> islinebreak c) text)))"
  by pat_completeness auto
termination
proof (relation "measure length")
  show "wf (measure length)" by simp
next
  fix s :: str
  assume ne: "s \<noteq> []"
  let ?rest = "dropWhile (\<lambda>c. \<not> islinebreak c) s"
  show "(skip_break ?rest, s) \<in> measure length"
  proof (cases ?rest)
    case Nil
    have "skip_break ?rest = []"
      by (simp only: Nil skip_break.simps)
    with ne show ?thesis by simp
  next
    case (Cons c cs)
    have "length (skip_break (c # cs)) \<le> length cs"
      by (cases cs) simp_all
    moreover have "length ?rest \<le> length s"
      by (rule length_dropWhile_le)
    ultimately show ?thesis using Cons by simp
  qed
qed

declare splitlines.simps [simp del]

definition startswith :: "str \<Rightarrow> str \<Rightarrow> bool" where
  "startswith line prefix = (take (length prefix) line = prefix)"

text \<open>
  \<open>line.split(sep, 1)\<close> cuts at the leftmost occurrence of a non-empty \<open>sep\<close>;
  \<open>None\<close> is the case \<open>sep not in line\<close>, where the source takes neither part.
\<close>

fun split_once :: "str \<Rightarrow> str \<Rightarrow> (str \<times> str) option" where
  "split_once sep [] = None"
| "split_once sep (c # cs) =
     (if startswith (c # cs) sep then Some ([], drop (length sep) (c # cs))
      else (case split_once sep cs of
              None \<Rightarrow> None
            | Some (head, rest) \<Rightarrow> Some (c # head, rest)))"

text \<open>
  \<open>str.isdigit()\<close> holds of a non-empty text whose characters all have the Unicode
  property Numeric_Type Digit or Decimal. Below U+0100 these are \<open>0\<close>..\<open>9\<close> and the
  superscripts U+00B2, U+00B3 and U+00B9; the table of the Unicode database above U+00FF is
  the parameter \<open>D\<close>.
\<close>

definition isdigit_char :: "(nat \<Rightarrow> bool) \<Rightarrow> nat \<Rightarrow> bool" where
  "isdigit_char D c =
     (if c < 256 then (48 \<le> c \<and> c \<le> 57) \<or> c = 178 \<or> c = 179 \<or> c = 185 else D c)"

definition isdigit :: "(nat \<Rightarrow> bool) \<Rightarrow> str \<Rightarrow> bool" where
  "isdigit D s = (s \<noteq> [] \<and> list_all (isdigit_char D) s)"

text \<open>The decimal numeral of an integer, as an f-string prints it.\<close>

function str_of_nat :: "nat \<Rightarrow> str" where
  "str_of_nat n = (if n < 10 then [48 + n] else str_of_nat (n div 10) @ [48 + n mod 10])"
  by pat_completeness auto
termination
  by (relation "measure id") auto

declare str_of_nat.simps [simp del]

definition str_of_int :: "int \<Rightarrow> str" where
  "str_of_int i = (if i < 0 then 45 # str_of_nat (nat (- i)) else str_of_nat (nat i))"

text \<open>
  \<open>xs[i]\<close> on a Python list: a negative index counts from the end, and an index outside
  \<open>-len(xs) .. len(xs) - 1\<close> raises IndexError.
\<close>

datatype error = IndexError | KeyError | GraphRecursionError

definition py_index :: "'a list \<Rightarrow> int \<Rightarrow> error + 'a" where
  "py_index xs i =
     (if 0 \<le> i then
        (if i < int (length xs) then Inr (xs ! nat i) else Inl IndexError)
      else
        (if - int (length xs) \<le> i then Inr (xs ! nat (int (length xs) + i))
         else Inl IndexError))"

section \<open>The plan parser (nodes.py, \<open>_parse_plan\<close>)\<close>

definition bullet_prefixes :: "str list" where
  "bullet_prefixes = [ustr ''- '', ustr ''* '', [8226, 32]]"

definition strip_bullet :: "str \<Rightarrow> str \<Rightarrow> str" where
  "strip_bullet line prefix =
     (if startswith line prefix then strip (drop (length prefix) line) else line)"

definition strip_number :: "(nat \<Rightarrow> bool) \<Rightarrow> str \<Rightarrow> str" where
  "strip_number D line =
     (case split_once (ustr ''. '') line of
        None \<Rightarrow> line
      | Some (head, rest) \<Rightarrow> if isdigit D head then strip rest else line)"

fun parse_lines :: "(nat \<Rightarrow> bool) \<Rightarrow> str list \<Rightarrow> str list" where
  "parse_lines D [] = []"
| "parse_lines D (raw_line # rest) =
     (let line = strip raw_line
      in if line = [] then parse_lines D rest
         else strip_number D (foldl strip_bullet line bullet_prefixes) # parse_lines D rest)"

definition parse_plan :: "(nat \<Rightarrow> bool) \<Rightarrow> str \<Rightarrow> str list" where
  "parse_plan D text = parse_lines D (splitlines text)"

section \<open>The shared state (state.py, \<open>AgentState\<close>)\<close>

text \<open>
  A message is a LangChain \<open>SystemMessage\<close> or \<open>HumanMessage\<close> with its content and
  its optional \<open>name\<close>, the author tag the Supervisor reads.
\<close>

datatype message_class = SystemMessage | HumanMessage

record message =
  msg_class :: message_class
  content :: str
  name :: "str option"

record agent_state =
  messages :: "message list"
  user_goal :: str
  plan :: "str list"
  current_step_index :: int
  execution_log :: "str list"
  next_step :: str
  status :: str

text \<open>
  \<open>AgentState\<close> is a total \<open>TypedDict\<close>: a state holds every key, so the defaults of
  the \<open>state.get\<close> calls in nodes.py are never taken. A node returns a dictionary holding
  some of the keys: each field of an update is \<open>None\<close> when the key is absent.
\<close>

record update =
  upd_messages :: "message list option"
  upd_user_goal :: "str option"
  upd_plan :: "str list option"
  upd_current_step_index :: "int option"
  upd_execution_log :: "str list option"
  upd_next_step :: "str option"
  upd_status :: "str option"

definition no_update :: update where
  "no_update =
     \<lparr>upd_messages = None, upd_user_goal = None, upd_plan = None,
      upd_current_step_index = None, upd_execution_log = None, upd_next_step = None,
      upd_status = None\<rparr>"

text \<open>
  The graph applies an update key by key. \<open>AgentState\<close> annotates \<open>messages\<close> alone
  with a reducer, \<open>add_messages\<close>, which appends the returned messages (none of the
  messages built in nodes.py carries an id, so none replaces an earlier one). Every other
  key has no reducer: the returned value overwrites the stored one.
\<close>

definition add_messages :: "message list \<Rightarrow> message list \<Rightarrow> message list" where
  "add_messages left right = left @ right"

definition overwrite :: "'a \<Rightarrow> 'a option \<Rightarrow> 'a" where
  "overwrite old new = (case new of None \<Rightarrow> old | Some v \<Rightarrow> v)"

definition merge :: "agent_state \<Rightarrow> update \<Rightarrow> agent_state" where
  "merge state u =
     \<lparr>messages = (case upd_messages u of
                    None \<Rightarrow> messages state
                  | Some new \<Rightarrow> add_messages (messages state) new),
      user_goal = overwrite (user_goal state) (upd_user_goal u),
      plan = overwrite (plan state) (upd_plan u),
      current_step_index = overwrite (current_step_index state) (upd_current_step_index u),
      execution_log = overwrite (execution_log state) (upd_execution_log u),
      next_step = overwrite (next_step state) (upd_next_step u),
      status = overwrite (status state) (upd_status u)\<rparr>"

section \<open>The nodes (nodes.py)\<close>

text \<open>
  The language model is a collaborator outside the repository: \<open>llm.invoke\<close> takes the
  two messages of a prompt and returns a text. It is a parameter of the model, a function
  that also threads a state \<open>'g\<close> of its own, so that two calls with the same prompt may
  answer differently. What the nodes print to the console is not part of the model.
\<close>

type_synonym 'g llm = "'g \<Rightarrow> message list \<Rightarrow> str \<times> 'g"

text \<open>\<open>not last_name\<close>: the name is \<open>None\<close> or the empty text.\<close>

definition truthy :: "str option \<Rightarrow> bool" where
  "truthy v = (case v of None \<Rightarrow> False | Some t \<Rightarrow> t \<noteq> [])"

definition supervisor_node :: "agent_state \<Rightarrow> update" where
  "supervisor_node state =
     (let msgs = messages state;
          last_message = (if msgs \<noteq> [] then Some (last msgs) else None);
          last_name = (case last_message of None \<Rightarrow> None | Some m \<Rightarrow> name m);
          steps = plan state;
          current_index = current_step_index state;
          next =
            (if \<not> truthy last_name then ustr ''Planner''
             else if last_name = Some (ustr ''Planner'') then ustr ''Executor''
             else if last_name = Some (ustr ''Executor'') then
               (if current_index < int (length steps) then ustr ''Executor''
                else ustr ''FINISH'')
             else ustr ''FINISH'')
      in no_update\<lparr>upd_next_step := Some next, upd_status := Some (ustr ''supervising'')\<rparr>)"

definition default_goal :: str where
  "default_goal = ustr ''Set up a basic ML experiment tracking workflow.''"

definition planner_system :: str where
  "planner_system =
     ustr ''You are an MLOps planning assistant. Given a high-level '' @
     ustr ''goal, produce a short ordered list of concrete steps to '' @
     ustr ''achieve it. Focus on practical, implementation-oriented '' @
     ustr ''actions suitable for a small lab environment.''"

definition planner_prompt :: "str \<Rightarrow> message list" where
  "planner_prompt goal =
     [\<lparr>msg_class = SystemMessage, content = planner_system, name = None\<rparr>,
      \<lparr>msg_class = HumanMessage,
       content = ustr ''User goal: '' @ goal @ [10, 10] @
                 ustr ''Respond with 4-8 steps as a numbered list.'',
       name = None\<rparr>]"

definition fallback_plan :: "str list" where
  "fallback_plan =
     [ustr ''Clarify the goal and constraints.'',
      ustr ''Draft a minimal implementation plan.'',
      ustr ''Implement the plan in a step-by-step fashion.'',
      ustr ''Verify that the goal has been achieved.'']"

definition resolve_goal :: "agent_state \<Rightarrow> str" where
  "resolve_goal state =
     (if user_goal state = [] then
        (case messages state of
           [] \<Rightarrow> default_goal
         | m # _ \<Rightarrow> content m)
      else user_goal state)"

definition planner_node ::
  "(nat \<Rightarrow> bool) \<Rightarrow> 'g llm \<Rightarrow> agent_state \<Rightarrow> 'g \<Rightarrow> update \<times> 'g" where
  "planner_node D llm state g =
     (let goal = resolve_goal state;
          (raw_plan, g') = llm g (planner_prompt goal);
          parsed = parse_plan D raw_plan;
          steps = (if parsed = [] then fallback_plan else parsed)
      in (\<lparr>upd_messages =
              Some [\<lparr>msg_class = HumanMessage, content = raw_plan,
                     name = Some (ustr ''Planner'')\<rparr>],
           upd_user_goal = Some goal,
           upd_plan = Some steps,
           upd_current_step_index = Some 0,
           upd_execution_log = None,
           upd_next_step = None,
           upd_status = Some (ustr ''planning_done'')\<rparr>, g'))"

definition executor_system :: str where
  "executor_system =
     ustr ''You are an MLOps execution assistant. For the given plan '' @
     ustr ''step, describe briefly (3-5 sentences) how you would carry '' @
     ustr ''it out in practice, including any relevant tools, commands, '' @
     ustr ''or configuration considerations.''"

definition executor_prompt :: "str \<Rightarrow> str \<Rightarrow> message list" where
  "executor_prompt goal step_text =
     [\<lparr>msg_class = SystemMessage, content = executor_system, name = None\<rparr>,
      \<lparr>msg_class = HumanMessage,
       content = ustr ''Overall user goal: '' @ goal @ [10] @
                 ustr ''Current step: '' @ step_text,
       name = None\<rparr>]"

definition log_entry :: "int \<Rightarrow> str \<Rightarrow> str \<Rightarrow> str" where
  "log_entry current_index step_text explanation =
     ustr ''Step '' @ str_of_int (current_index + 1) @ ustr '': '' @ step_text @ [10] @
     explanation"

definition executor_node :: "'g llm \<Rightarrow> agent_state \<Rightarrow> 'g \<Rightarrow> error + update \<times> 'g" where
  "executor_node llm state g =
     (let steps = plan state;
          current_index = current_step_index state
      in if steps = [] \<or> int (length steps) \<le> current_index then
           Inr (no_update\<lparr>upd_status := Some (ustr ''nothing_to_execute'')\<rparr>, g)
         else
           (case py_index steps current_index of
              Inl e \<Rightarrow> Inl e
            | Inr step_text \<Rightarrow>
                (let (explanation, g') = llm g (executor_prompt (user_goal state) step_text);
                     previous_log = execution_log state;
                     entry = log_entry current_index step_text explanation
                 in Inr (\<lparr>upd_messages =
                             Some [\<lparr>msg_class = HumanMessage, content = explanation,
                                    name = Some (ustr ''Executor'')\<rparr>],
                          upd_user_goal = None,
                          upd_plan = None,
                          upd_current_step_index = Some (current_index + 1),
                          upd_execution_log = Some (previous_log @ [entry]),
                          upd_next_step = None,
                          upd_status = Some (ustr ''executing'')\<rparr>, g'))))"

section \<open>The graph (graph.py) and the entry point (agent.py)\<close>

datatype node = Supervisor | Planner | Executor

datatype target = Node node | END

text \<open>
  The conditional edge out of the Supervisor looks \<open>next_step\<close> up in the path map
  \<open>{"Planner": "Planner", "Executor": "Executor", "FINISH": END}\<close>.
\<close>

definition path_map :: "str \<Rightarrow> error + target" where
  "path_map key =
     (if key = ustr ''Planner'' then Inr (Node Planner)
      else if key = ustr ''Executor'' then Inr (Node Executor)
      else if key = ustr ''FINISH'' then Inr END
      else Inl KeyError)"

fun successor :: "node \<Rightarrow> agent_state \<Rightarrow> error + target" where
  "successor Supervisor state = path_map (next_step state)"
| "successor Planner state = Inr (Node Supervisor)"
| "successor Executor state = Inr (Node Supervisor)"

fun call_node ::
  "(nat \<Rightarrow> bool) \<Rightarrow> 'g llm \<Rightarrow> node \<Rightarrow> agent_state \<Rightarrow> 'g \<Rightarrow> error + update \<times> 'g" where
  "call_node D llm Supervisor state g = Inr (supervisor_node state, g)"
| "call_node D llm Planner state g = Inr (planner_node D llm state g)"
| "call_node D llm Executor state g = executor_node llm state g"

text \<open>
  One run of the compiled graph from a node: the node is called, its update is merged
  into the state, and the edge out of the node gives the next node or \<open>END\<close>. The result
  is the list of turns taken, each with the node called and the state after the merge, and
  how the run ended: \<open>None\<close> at \<open>END\<close>, or the error raised. The first argument is
  the framework's \<open>recursion_limit\<close>. The framework counts the step that takes the input
  towards the limit, so a run returns only if the limit exceeds the number of its node
  calls: a run that calls as many nodes as the limit, or would call more, raises
  \<open>GraphRecursionError\<close>.
\<close>

fun graph_steps ::
  "(nat \<Rightarrow> bool) \<Rightarrow> 'g llm \<Rightarrow> nat \<Rightarrow> node \<Rightarrow> agent_state \<Rightarrow> 'g
     \<Rightarrow> (node \<times> agent_state) list \<times> error option" where
  "graph_steps D llm 0 nd state g = ([], Some GraphRecursionError)"
| "graph_steps D llm (Suc limit) nd state g =
     (case call_node D llm nd state g of
        Inl e \<Rightarrow> ([], Some e)
      | Inr (u, g') \<Rightarrow>
          (let state' = merge state u
           in case successor nd state' of
                Inl e \<Rightarrow> ([(nd, state')], Some e)
              | Inr END \<Rightarrow>
                  ([(nd, state')], if limit = 0 then Some GraphRecursionError else None)
              | Inr (Node nd') \<Rightarrow>
                  (let (turns, outcome) = graph_steps D llm limit nd' state' g'
                   in ((nd, state') # turns, outcome))))"

definition initial_state :: "str \<Rightarrow> agent_state" where
  "initial_state goal =
     \<lparr>messages = [\<lparr>msg_class = HumanMessage, content = goal, name = None\<rparr>],
      user_goal = goal,
      plan = [],
      current_step_index = 0,
      execution_log = [],
      next_step = [],
      status = ustr ''created''\<rparr>"


text \<open>
  \<open>graph.stream(initial_state, stream_mode="values")\<close> yields the state it starts from
  and then the state after every turn; \<open>run_once\<close> returns the last state yielded. The
  thread of the checkpointer is taken to be fresh, as in the one call agent.py makes, so
  that the run starts from \<open>initial_state\<close> itself.
\<close>

definition graph_stream ::
  "(nat \<Rightarrow> bool) \<Rightarrow> 'g llm \<Rightarrow> nat \<Rightarrow> str \<Rightarrow> 'g \<Rightarrow> (node \<times> agent_state) list \<times> error option" where
  "graph_stream D llm limit goal g = graph_steps D llm limit Supervisor (initial_state goal) g"

definition streamed ::
  "(nat \<Rightarrow> bool) \<Rightarrow> 'g llm \<Rightarrow> nat \<Rightarrow> str \<Rightarrow> 'g \<Rightarrow> agent_state list" where
  "streamed D llm limit goal g =
     initial_state goal # map snd (fst (graph_stream D llm limit goal g))"

definition run_once ::
  "(nat \<Rightarrow> bool) \<Rightarrow> 'g llm \<Rightarrow> nat \<Rightarrow> str \<Rightarrow> 'g \<Rightarrow> error + agent_state" where
  "run_once D llm limit goal g =
     (case snd (graph_stream D llm limit goal g) of
        Some e \<Rightarrow> Inl e
      | None \<Rightarrow> Inr (last (streamed D llm limit goal g)))"

text \<open>The turns of a run that called a given node.\<close>

definition calls :: "node \<Rightarrow> (node \<times> agent_state) list \<Rightarrow> nat" where
  "calls nd turns = length (filter (\<lambda>t. fst t = nd) turns)"

text \<open>The plan the Planner turn of a run writes.\<close>

definition planned ::
  "(nat \<Rightarrow> bool) \<Rightarrow> 'g llm \<Rightarrow> str \<Rightarrow> 'g \<Rightarrow> str list" where
  "planned D llm goal g =
     overwrite [] (upd_plan (fst (planner_node D llm
       (merge (initial_state goal) (supervisor_node (initial_state goal))) g)))"

section \<open>The routing rule as the specification words it\<close>

datatype decision = Route_Planner | Route_Executor | Route_Finish

fun decision_name :: "decision \<Rightarrow> str" where
  "decision_name Route_Planner = ustr ''Planner''"
| "decision_name Route_Executor = ustr ''Executor''"
| "decision_name Route_Finish = ustr ''FINISH''"

text \<open>
  A message carries an author tag when its name is set and not empty; the rule is tried
  top to bottom, the first match wins.
\<close>

definition untagged :: "message \<Rightarrow> bool" where
  "untagged m = (name m = None \<or> name m = Some [])"

definition tagged :: "str \<Rightarrow> message \<Rightarrow> bool" where
  "tagged tag m = (name m = Some tag)"

definition route_rule :: "agent_state \<Rightarrow> decision" where
  "route_rule state =
     (if messages state = [] \<or> untagged (last (messages state)) then Route_Planner
      else if tagged (ustr ''Planner'') (last (messages state)) then Route_Executor
      else if tagged (ustr ''Executor'') (last (messages state)) then
        (if current_step_index state < int (length (plan state)) then Route_Executor
         else Route_Finish)
      else Route_Finish)"

section \<open>The end-to-end scenario\<close>

text \<open>
  The goal is "Set up monitoring"; the mock model answers the planning prompt (the one whose
  system message is the Planner's) with a two-line numbered list and every other prompt
  with "Done.".
\<close>

definition monitoring_goal :: str where
  "monitoring_goal = ustr ''Set up monitoring''"

definition mock_plan_text :: str where
  "mock_plan_text = ustr ''1. Install agent'' @ [10] @ ustr ''2. Configure dashboards''"

definition mock_llm :: "unit llm" where
  "mock_llm g prompt =
     (case prompt of
        [] \<Rightarrow> (ustr ''Done.'', g)
      | m # _ \<Rightarrow> (if content m = planner_system then mock_plan_text else ustr ''Done.'', g))"

text \<open>The state the scenario ends in, and the turns that lead to it.\<close>

definition monitoring_final :: agent_state where
  "monitoring_final =
     \<lparr>messages =
        [\<lparr>msg_class = HumanMessage, content = monitoring_goal, name = None\<rparr>,
         \<lparr>msg_class = HumanMessage, content = mock_plan_text,
          name = Some (ustr ''Planner'')\<rparr>,
         \<lparr>msg_class = HumanMessage, content = ustr ''Done.'',
          name = Some (ustr ''Executor'')\<rparr>,
         \<lparr>msg_class = HumanMessage, content = ustr ''Done.'',
          name = Some (ustr ''Executor'')\<rparr>],
      user_goal = monitoring_goal,
      plan = [ustr ''Install agent'', ustr ''Configure dashboards''],
      current_step_index = 2,
      execution_log =
        [ustr ''Step 1: Install agent'' @ [10] @ ustr ''Done.'',
         ustr ''Step 2: Configure dashboards'' @ [10] @ ustr ''Done.''],
      next_step = ustr ''FINISH'',
      status = ustr ''supervising''\<rparr>"

definition monitoring_turns :: "(node \<times> agent_state) list" where
  "monitoring_turns =
     [(Supervisor,
       initial_state monitoring_goal
         \<lparr>next_step := ustr ''Planner'', status := ustr ''supervising''\<rparr>),
      (Planner,
       monitoring_final
         \<lparr>messages := take 2 (messages monitoring_final), current_step_index := 0,
          execution_log := [], next_step := ustr ''Planner'',
          status := ustr ''planning_done''\<rparr>),
      (Supervisor,
       monitoring_final
         \<lparr>messages := take 2 (messages monitoring_final), current_step_index := 0,
          execution_log := [], next_step := ustr ''Executor''\<rparr>),
      (Executor,
       monitoring_final
         \<lparr>messages := take 3 (messages monitoring_final), current_step_index := 1,
          execution_log := take 1 (execution_log monitoring_final),
          next_step := ustr ''Executor'', status := ustr ''executing''\<rparr>),
      (Supervisor,
       monitoring_final
         \<lparr>messages := take 3 (messages monitoring_final), current_step_index := 1,
          execution_log := take 1 (execution_log monitoring_final),
          next_step := ustr ''Executor''\<rparr>),
      (Executor,
       monitoring_final\<lparr>next_step := ustr ''Executor'', status := ustr ''executing''\<rparr>),
      (Supervisor, monitoring_final)]"



section \<open>The phases of a run\<close>

text \<open>
  The states after the first Supervisor turn and after the Planner turn of a run.
\<close>

definition after_supervisor :: "str \<Rightarrow> agent_state" where
  "after_supervisor goal = merge (initial_state goal) (supervisor_node (initial_state goal))"

definition after_planner :: "(nat \<Rightarrow> bool) \<Rightarrow> 'g llm \<Rightarrow> str \<Rightarrow> 'g \<Rightarrow> agent_state" where
  "after_planner D llm goal g =
     merge (after_supervisor goal) (fst (planner_node D llm (after_supervisor goal) g))"

text \<open>
  From the Planner turn on a run is in its executing phase: the plan \<open>P\<close> is set and not
  empty, the index is within it and counts the log entries, and the node to call next is
  the Supervisor after a message of the Planner or of the Executor, or the Executor with a
  step left.
\<close>

definition executing :: "str list \<Rightarrow> node \<Rightarrow> agent_state \<Rightarrow> bool" where
  "executing P nd s =
     (plan s = P \<and> P \<noteq> [] \<and> 0 \<le> current_step_index s \<and>
      current_step_index s \<le> int (length P) \<and>
      int (length (execution_log s)) = current_step_index s \<and>
      messages s \<noteq> [] \<and>
      (case nd of
         Supervisor \<Rightarrow>
           (name (last (messages s)) = Some (ustr ''Planner'') \<and>
            current_step_index s < int (length P)) \<or>
           name (last (messages s)) = Some (ustr ''Executor'')
       | Planner \<Rightarrow> False
       | Executor \<Rightarrow> current_step_index s < int (length P)))"

text \<open>The state and the model's state after an Executor turn.\<close>

definition executed :: "'g llm \<Rightarrow> agent_state \<Rightarrow> 'g \<Rightarrow> agent_state" where
  "executed llm s g =
     (case executor_node llm s g of Inl e \<Rightarrow> s | Inr (u, g') \<Rightarrow> merge s u)"

definition executed_llm :: "'g llm \<Rightarrow> agent_state \<Rightarrow> 'g \<Rightarrow> 'g" where
  "executed_llm llm s g =
     (case executor_node llm s g of Inl e \<Rightarrow> g | Inr (u, g') \<Rightarrow> g')"

text \<open>What holds of a turn of the executing phase that started in the state \<open>s\<close>.\<close>

definition step_state :: "str list \<Rightarrow> agent_state \<Rightarrow> node \<times> agent_state \<Rightarrow> bool" where
  "step_state P s t =
     (fst t \<noteq> Planner \<and> plan (snd t) = P \<and>
      current_step_index s \<le> current_step_index (snd t) \<and>
      current_step_index (snd t) \<le> int (length P) \<and>
      int (length (execution_log (snd t))) = current_step_index (snd t))"

section \<open>Facts about texts\<close>

declare graph_steps.simps [simp del]

lemma ustr_eq_iff: "ustr a = ustr b \<longleftrightarrow> a = b"
  unfolding ustr_def by (simp add: inj_on_def)

lemma ustr_Nil_iff: "ustr a = [] \<longleftrightarrow> a = []"
  by (simp add: ustr_def)

lemma str_of_int_1_2: "str_of_int 1 = [49]" "str_of_int 2 = [50]"
  by (simp_all add: str_of_int_def str_of_nat.simps)

section \<open>The Supervisor\<close>

lemma truthy_untagged: "truthy (name m) \<longleftrightarrow> \<not> untagged m"
  by (cases "name m") (auto simp: truthy_def untagged_def)

lemma supervisor_next_step:
  "upd_next_step (supervisor_node state) = Some (decision_name (route_rule state))"
proof (cases "messages state = []")
  case True
  then show ?thesis
    by (simp add: supervisor_node_def route_rule_def no_update_def truthy_def)
next
  case False
  then show ?thesis
    by (simp add: supervisor_node_def route_rule_def no_update_def truthy_untagged tagged_def
        Let_def)
qed

lemma supervisor_not_planner:
  assumes "messages state \<noteq> []" and "truthy (name (last (messages state)))"
  shows "upd_next_step (supervisor_node state) \<noteq> Some (ustr ''Planner'')"
  using assms
  by (simp add: supervisor_node_def no_update_def Let_def ustr_eq_iff)

lemma merge_supervisor_fields:
  "messages (merge s (supervisor_node s)) = messages s"
  "user_goal (merge s (supervisor_node s)) = user_goal s"
  "plan (merge s (supervisor_node s)) = plan s"
  "current_step_index (merge s (supervisor_node s)) = current_step_index s"
  "execution_log (merge s (supervisor_node s)) = execution_log s"
  "status (merge s (supervisor_node s)) = ustr ''supervising''"
  by (simp_all add: merge_def supervisor_node_def no_update_def overwrite_def Let_def)

lemma merge_supervisor_next_step:
  "next_step (merge s (supervisor_node s)) = decision_name (route_rule s)"
  using supervisor_next_step [of s] by (simp add: merge_def overwrite_def)

lemma path_map_simps:
  "path_map (ustr ''Planner'') = Inr (Node Planner)"
  "path_map (ustr ''Executor'') = Inr (Node Executor)"
  "path_map (ustr ''FINISH'') = Inr END"
  by (simp_all add: path_map_def ustr_eq_iff)

text \<open>
  C1. Whatever the state, the \<open>next_step\<close> the Supervisor returns is the decision of the
  first-match rule: Planner when there is no message or the last message carries no
  author tag (its name is absent or empty, which is what \<open>not last_name\<close> tests);
  Executor after a message tagged Planner; after a message tagged Executor, Executor while
  \<open>current_step_index < len(plan)\<close> and Finish otherwise; Finish for any other tag.
\<close>

theorem supervisor_routes_by_rule:
  "upd_next_step (supervisor_node state) = Some (decision_name (route_rule state))"
proof (cases "messages state = []")
  case True
  then have "route_rule state = Route_Planner"
    by (simp add: route_rule_def)
  moreover from True have "upd_next_step (supervisor_node state) = Some (ustr ''Planner'')"
    by (simp add: supervisor_node_def no_update_def truthy_def)
  ultimately show ?thesis by simp
next
  case False
  let ?m = "last (messages state)"
  from False have node: "upd_next_step (supervisor_node state) = Some
      (if \<not> truthy (name ?m) then ustr ''Planner''
       else if name ?m = Some (ustr ''Planner'') then ustr ''Executor''
       else if name ?m = Some (ustr ''Executor'') then
         (if current_step_index state < int (length (plan state)) then ustr ''Executor''
          else ustr ''FINISH'')
       else ustr ''FINISH'')"
    by (simp add: supervisor_node_def no_update_def Let_def)
  show ?thesis
  proof (cases "untagged ?m")
    case True
    with False node show ?thesis
      by (simp add: route_rule_def truthy_untagged)
  next
    case False
    with \<open>messages state \<noteq> []\<close> node show ?thesis
      by (simp add: route_rule_def truthy_untagged tagged_def)
  qed
qed

theorem supervisor_routes_by_rule_witness:
  "upd_next_step (supervisor_node (initial_state monitoring_goal)) = Some (ustr ''Planner'') \<and>
   route_rule (initial_state monitoring_goal) = Route_Planner \<and>
   upd_next_step (supervisor_node monitoring_final) = Some (ustr ''FINISH'') \<and>
   route_rule monitoring_final = Route_Finish"
  using supervisor_routes_by_rule [of "initial_state monitoring_goal"]
    supervisor_routes_by_rule [of monitoring_final]
  by (simp add: route_rule_def initial_state_def monitoring_final_def untagged_def tagged_def
      ustr_eq_iff ustr_Nil_iff)

text \<open>
  C4 (as amended). The Supervisor's update is a function of the state alone, and a
  Supervisor turn leaves \<open>messages\<close>, \<open>user_goal\<close>, \<open>plan\<close>, \<open>current_step_index\<close>
  and \<open>execution_log\<close> as they were; it writes two fields, \<open>next_step\<close> (the decision)
  and \<open>status\<close>, which becomes "supervising".
\<close>

theorem supervisor_turn_frame:
  "messages (merge s (supervisor_node s)) = messages s \<and>
   user_goal (merge s (supervisor_node s)) = user_goal s \<and>
   plan (merge s (supervisor_node s)) = plan s \<and>
   current_step_index (merge s (supervisor_node s)) = current_step_index s \<and>
   execution_log (merge s (supervisor_node s)) = execution_log s \<and>
   next_step (merge s (supervisor_node s)) = decision_name (route_rule s) \<and>
   status (merge s (supervisor_node s)) = ustr ''supervising''"
proof -
  have written: "upd_next_step (supervisor_node s) = Some (decision_name (route_rule s))"
    "upd_status (supervisor_node s) = Some (ustr ''supervising'')"
    by (simp_all add: supervisor_next_step) (simp add: supervisor_node_def no_update_def Let_def)
  have absent: "upd_messages (supervisor_node s) = None"
    "upd_user_goal (supervisor_node s) = None"
    "upd_plan (supervisor_node s) = None"
    "upd_current_step_index (supervisor_node s) = None"
    "upd_execution_log (supervisor_node s) = None"
    by (simp_all add: supervisor_node_def no_update_def Let_def)
  show ?thesis
    by (simp add: merge_def overwrite_def written absent)
qed

theorem supervisor_turn_frame_witness:
  "merge (initial_state monitoring_goal) (supervisor_node (initial_state monitoring_goal))
     = initial_state monitoring_goal
         \<lparr>next_step := ustr ''Planner'', status := ustr ''supervising''\<rparr>"
  using supervisor_turn_frame [of "initial_state monitoring_goal"]
  by (simp add: initial_state_def route_rule_def untagged_def)

text \<open>
  The claim as the specification words it (every field other than \<open>next_step\<close> is
  unchanged) fails on the first turn of any run: \<open>status\<close> goes from "created" to
  "supervising".
\<close>

theorem supervisor_status_counterexample:
  "status (merge (initial_state monitoring_goal) (supervisor_node (initial_state monitoring_goal)))
     = ustr ''supervising'' \<and>
   status (merge (initial_state monitoring_goal) (supervisor_node (initial_state monitoring_goal)))
     \<noteq> status (initial_state monitoring_goal)"
  by (simp add: merge_supervisor_fields initial_state_def ustr_eq_iff)

section \<open>The scenario, evaluated\<close>

lemma systems_differ: "executor_system \<noteq> planner_system"
  by (simp add: executor_system_def planner_system_def ustr_def)

lemma parse_mock_plan:
  "parse_plan D mock_plan_text = [ustr ''Install agent'', ustr ''Configure dashboards'']"
  by (simp add: mock_plan_text_def parse_plan_def ustr_def splitlines.simps islinebreak_def strip_def
      isspace_def strip_number_def strip_bullet_def bullet_prefixes_def startswith_def
      isdigit_def isdigit_char_def)

lemma mock_planner:
  "mock_llm g (planner_prompt goal) = (mock_plan_text, g)"
  by (simp add: mock_llm_def planner_prompt_def)

lemma mock_executor:
  "mock_llm g (executor_prompt goal step) = (ustr ''Done.'', g)"
  by (simp add: mock_llm_def executor_prompt_def systems_differ)

lemma monitoring_stream_Suc:
  "graph_stream D mock_llm (Suc (Suc (Suc (Suc (Suc (Suc (Suc k))))))) monitoring_goal () =
     (monitoring_turns, if k = 0 then Some GraphRecursionError else None)"
  apply (simp add: graph_stream_def graph_steps.simps initial_state_def monitoring_final_def
      monitoring_turns_def
      supervisor_node_def planner_node_def executor_node_def merge_def overwrite_def
      add_messages_def no_update_def truthy_def resolve_goal_def mock_planner mock_executor
      parse_mock_plan py_index_def log_entry_def str_of_int_1_2 path_map_simps ustr_eq_iff
      ustr_Nil_iff Let_def monitoring_goal_def)
  apply (simp add: ustr_def)
  done

lemma monitoring_turns_taken:
  assumes "7 \<le> limit"
  shows "fst (graph_stream D mock_llm limit monitoring_goal ()) = monitoring_turns"
proof -
  from assms obtain k where "limit = 7 + k"
    using le_Suc_ex by blast
  then have "limit = Suc (Suc (Suc (Suc (Suc (Suc (Suc k))))))" by simp
  then show ?thesis by (simp only: monitoring_stream_Suc fst_conv)
qed

lemma monitoring_stream:
  assumes "8 \<le> limit"
  shows "graph_stream D mock_llm limit monitoring_goal () = (monitoring_turns, None)"
proof -
  from assms obtain k where "limit = 8 + k"
    using le_Suc_ex by blast
  then have "limit = Suc (Suc (Suc (Suc (Suc (Suc (Suc (Suc k)))))))" by simp
  then show ?thesis by (simp add: monitoring_stream_Suc)
qed

lemma monitoring_turns_facts:
  "length monitoring_turns = 7"
  "map fst monitoring_turns =
     [Supervisor, Planner, Supervisor, Executor, Supervisor, Executor, Supervisor]"
  "last monitoring_turns = (Supervisor, monitoring_final)"
  "calls Supervisor monitoring_turns = 4"
  "calls Executor (take 6 monitoring_turns) = 2"
  "status (snd (monitoring_turns ! 5)) = ustr ''executing''"
  "current_step_index (snd (monitoring_turns ! 5)) = 2"
  "length (execution_log (snd (monitoring_turns ! 5))) = 2"
  "plan (snd (monitoring_turns ! 5)) = plan monitoring_final"
  "messages (snd (monitoring_turns ! 5)) = messages monitoring_final"
  by (simp_all add: monitoring_turns_def calls_def monitoring_final_def)

lemma monitoring_indices:
  "map (\<lambda>t. current_step_index (snd t)) monitoring_turns = [0, 0, 0, 1, 1, 2, 2]"
  by (simp add: monitoring_turns_def monitoring_final_def initial_state_def)

lemma monitoring_final_fields:
  "plan monitoring_final = [ustr ''Install agent'', ustr ''Configure dashboards'']"
  "current_step_index monitoring_final = 2"
  "length (execution_log monitoring_final) = 2"
  "status monitoring_final = ustr ''supervising''"
  "next_step monitoring_final = ustr ''FINISH''"
  "messages monitoring_final \<noteq> []"
  "name (last (messages monitoring_final)) = Some (ustr ''Executor'')"
  by (simp_all add: monitoring_final_def)

lemma monitoring_planned:
  "planned D mock_llm monitoring_goal () = [ustr ''Install agent'', ustr ''Configure dashboards'']"
  by (simp add: planned_def planner_node_def mock_planner parse_mock_plan overwrite_def)

lemma monitoring_streamed:
  assumes "7 \<le> limit"
  shows "streamed D mock_llm limit monitoring_goal ()
           = initial_state monitoring_goal # map snd monitoring_turns"
  by (simp add: streamed_def monitoring_turns_taken [OF assms])

lemma monitoring_run:
  assumes "8 \<le> limit"
  shows "run_once D mock_llm limit monitoring_goal () = Inr monitoring_final"
proof -
  from assms have "7 \<le> limit" by simp
  then show ?thesis
    by (simp add: run_once_def monitoring_streamed monitoring_stream [OF assms]
        monitoring_turns_def)
qed




section \<open>Merging an update\<close>

text \<open>
  C3 (as amended). Merging an update appends to \<open>messages\<close> and replaces
  \<open>execution_log\<close>, \<open>plan\<close> and the scalar fields; a field absent from the update is
  left as it was. The Executor returns the full accumulated log, so a turn that carries
  out a step (the index is within the plan) leaves the old log with exactly one new entry
  at its end.
\<close>

theorem merge_policy:
  "messages (merge s u)
     = (case upd_messages u of None \<Rightarrow> messages s | Some new \<Rightarrow> messages s @ new) \<and>
   execution_log (merge s u)
     = (case upd_execution_log u of None \<Rightarrow> execution_log s | Some log \<Rightarrow> log) \<and>
   plan (merge s u) = (case upd_plan u of None \<Rightarrow> plan s | Some steps \<Rightarrow> steps) \<and>
   user_goal (merge s u) = (case upd_user_goal u of None \<Rightarrow> user_goal s | Some v \<Rightarrow> v) \<and>
   current_step_index (merge s u)
     = (case upd_current_step_index u of None \<Rightarrow> current_step_index s | Some i \<Rightarrow> i) \<and>
   next_step (merge s u) = (case upd_next_step u of None \<Rightarrow> next_step s | Some v \<Rightarrow> v) \<and>
   status (merge s u) = (case upd_status u of None \<Rightarrow> status s | Some v \<Rightarrow> v) \<and>
   (0 \<le> current_step_index s \<and> current_step_index s < int (length (plan s)) \<longrightarrow>
      (\<exists>u' g'. executor_node llm s g = Inr (u', g') \<and>
         upd_execution_log u'
           = Some (execution_log s @
               [log_entry (current_step_index s) (plan s ! nat (current_step_index s))
                  (fst (llm g (executor_prompt (user_goal s)
                     (plan s ! nat (current_step_index s)))))]) \<and>
         execution_log (merge s u')
           = execution_log s @
               [log_entry (current_step_index s) (plan s ! nat (current_step_index s))
                  (fst (llm g (executor_prompt (user_goal s)
                     (plan s ! nat (current_step_index s)))))]))"
proof -
  have fields: "messages (merge s u)
     = (case upd_messages u of None \<Rightarrow> messages s | Some new \<Rightarrow> messages s @ new)"
    "execution_log (merge s u)
     = (case upd_execution_log u of None \<Rightarrow> execution_log s | Some log \<Rightarrow> log)"
    "plan (merge s u) = (case upd_plan u of None \<Rightarrow> plan s | Some steps \<Rightarrow> steps)"
    "user_goal (merge s u) = (case upd_user_goal u of None \<Rightarrow> user_goal s | Some v \<Rightarrow> v)"
    "current_step_index (merge s u)
     = (case upd_current_step_index u of None \<Rightarrow> current_step_index s | Some i \<Rightarrow> i)"
    "next_step (merge s u) = (case upd_next_step u of None \<Rightarrow> next_step s | Some v \<Rightarrow> v)"
    "status (merge s u) = (case upd_status u of None \<Rightarrow> status s | Some v \<Rightarrow> v)"
    by (simp_all add: merge_def overwrite_def add_messages_def split: option.split)
  have turn: "\<exists>u' g'. executor_node llm s g = Inr (u', g') \<and>
         upd_execution_log u'
           = Some (execution_log s @
               [log_entry (current_step_index s) (plan s ! nat (current_step_index s))
                  (fst (llm g (executor_prompt (user_goal s)
                     (plan s ! nat (current_step_index s)))))]) \<and>
         execution_log (merge s u')
           = execution_log s @
               [log_entry (current_step_index s) (plan s ! nat (current_step_index s))
                  (fst (llm g (executor_prompt (user_goal s)
                     (plan s ! nat (current_step_index s)))))]"
    if "0 \<le> current_step_index s \<and> current_step_index s < int (length (plan s))"
  proof -
    from that have "plan s \<noteq> []" by auto
    with that show ?thesis
      by (simp add: executor_node_def py_index_def merge_def overwrite_def Let_def
          split: prod.split)
  qed
  from fields turn show ?thesis by blast
qed

theorem merge_policy_witness:
  "(0::int) \<le> 1 \<and> (1::int) < int (length (plan monitoring_final)) \<and>
   execution_log
     (merge (monitoring_final\<lparr>current_step_index := 1, execution_log := [ustr ''a'']\<rparr>)
        (no_update\<lparr>upd_execution_log := Some [ustr ''a'', ustr ''b'']\<rparr>))
     = [ustr ''a'', ustr ''b''] \<and>
   (\<exists>u' g'. executor_node mock_llm
               (monitoring_final\<lparr>current_step_index := 1, execution_log := [ustr ''a'']\<rparr>) ()
             = Inr (u', g') \<and>
      execution_log
        (merge (monitoring_final\<lparr>current_step_index := 1, execution_log := [ustr ''a'']\<rparr>) u')
        = [ustr ''a'', ustr ''Step 2: Configure dashboards'' @ [10] @ ustr ''Done.''])"
  using merge_policy [of "monitoring_final\<lparr>current_step_index := 1, execution_log := [ustr ''a'']\<rparr>"
      "no_update\<lparr>upd_execution_log := Some [ustr ''a'', ustr ''b'']\<rparr>" mock_llm "()"]
  by (simp add: monitoring_final_def no_update_def mock_executor log_entry_def
      str_of_int_1_2 executor_node_def py_index_def merge_def overwrite_def ustr_def)

text \<open>
  The claim as the specification words it (\<open>execution_log\<close> is appended to) fails on the
  specification's own example, the log \<open>["a"]\<close> merged with the update
  \<open>{execution_log: ["a", "b"]}\<close>: the result is \<open>["a", "b"]\<close>, not \<open>["a", "a", "b"]\<close>.
\<close>

theorem log_append_counterexample:
  "execution_log
     (merge (initial_state monitoring_goal\<lparr>execution_log := [ustr ''a'']\<rparr>)
        (no_update\<lparr>upd_execution_log := Some [ustr ''a'', ustr ''b'']\<rparr>))
     = [ustr ''a'', ustr ''b''] \<and>
   execution_log
     (merge (initial_state monitoring_goal\<lparr>execution_log := [ustr ''a'']\<rparr>)
        (no_update\<lparr>upd_execution_log := Some [ustr ''a'', ustr ''b'']\<rparr>))
     \<noteq> execution_log (initial_state monitoring_goal\<lparr>execution_log := [ustr ''a'']\<rparr>)
         @ [ustr ''a'', ustr ''b'']"
  by (simp add: merge_def overwrite_def no_update_def)

section \<open>The Planner and the Executor\<close>

text \<open>
  C8. When the parser finds no step in the model's answer, the Planner returns an update
  (it has no error result) whose plan is the fixed fallback plan, the four steps that
  clarify the goal, draft a plan, implement it and verify the result, and whose
  \<open>current_step_index\<close> is 0.
\<close>

theorem planner_falls_back:
  "parse_plan D (fst (llm g (planner_prompt (resolve_goal state)))) = [] \<Longrightarrow>
   upd_plan (fst (planner_node D llm state g))
     = Some [ustr ''Clarify the goal and constraints.'',
             ustr ''Draft a minimal implementation plan.'',
             ustr ''Implement the plan in a step-by-step fashion.'',
             ustr ''Verify that the goal has been achieved.''] \<and>
   upd_current_step_index (fst (planner_node D llm state g)) = Some 0"
  by (cases "llm g (planner_prompt (resolve_goal state))")
     (simp add: planner_node_def Let_def fallback_plan_def)

theorem planner_falls_back_witness:
  "parse_plan (\<lambda>c. False) (fst ((\<lambda>g prompt. ([32, 10, 9], g))
      () (planner_prompt (resolve_goal (initial_state monitoring_goal))))) = [] \<and>
   upd_plan (fst (planner_node (\<lambda>c. False) (\<lambda>g prompt. ([32, 10, 9], g))
      (initial_state monitoring_goal) ()))
     = Some [ustr ''Clarify the goal and constraints.'',
             ustr ''Draft a minimal implementation plan.'',
             ustr ''Implement the plan in a step-by-step fashion.'',
             ustr ''Verify that the goal has been achieved.''] \<and>
   upd_current_step_index (fst (planner_node (\<lambda>c. False) (\<lambda>g prompt. ([32, 10, 9], g))
      (initial_state monitoring_goal) ())) = Some 0"
  using planner_falls_back [of "\<lambda>c. False" "\<lambda>g prompt. ([32, 10, 9], g)" "()"
      "initial_state monitoring_goal"]
  by (simp add: parse_plan_def splitlines.simps islinebreak_def strip_def isspace_def)

text \<open>
  C9. When the plan is empty or \<open>current_step_index >= len(plan)\<close>, the Executor returns
  the update \<open>{status: "nothing_to_execute"}\<close> and nothing else, whatever the model is and
  without calling it (the model's state comes back as it was); merging the update changes
  no field but \<open>status\<close>.
\<close>

theorem executor_guard:
  "plan s = [] \<or> int (length (plan s)) \<le> current_step_index s \<Longrightarrow>
   executor_node llm s g = Inr (no_update\<lparr>upd_status := Some (ustr ''nothing_to_execute'')\<rparr>, g) \<and>
   merge s (no_update\<lparr>upd_status := Some (ustr ''nothing_to_execute'')\<rparr>)
     = s\<lparr>status := ustr ''nothing_to_execute''\<rparr>"
  by (auto simp: executor_node_def merge_def overwrite_def no_update_def)

theorem executor_guard_witness:
  "int (length (plan monitoring_final)) \<le> current_step_index monitoring_final \<and>
   executor_node mock_llm monitoring_final ()
     = Inr (no_update\<lparr>upd_status := Some (ustr ''nothing_to_execute'')\<rparr>, ()) \<and>
   merge monitoring_final (no_update\<lparr>upd_status := Some (ustr ''nothing_to_execute'')\<rparr>)
     = monitoring_final\<lparr>status := ustr ''nothing_to_execute''\<rparr>"
  using executor_guard [of monitoring_final mock_llm "()"]
  by (simp add: monitoring_final_fields)

section \<open>Turns of the executing phase\<close>

lemma supervisor_turn_finish:
  assumes "executing P Supervisor s" and "current_step_index s = int (length P)"
  shows "graph_steps D llm (Suc k) Supervisor s g =
           ([(Supervisor, merge s (supervisor_node s))],
            if k = 0 then Some GraphRecursionError else None)"
proof -
  have "route_rule s = Route_Finish"
    using assms by (auto simp: executing_def route_rule_def untagged_def tagged_def ustr_eq_iff ustr_Nil_iff)
  then show ?thesis
    by (simp add: graph_steps.simps merge_supervisor_next_step path_map_simps Let_def)
qed

lemma supervisor_turn_continue:
  assumes "executing P Supervisor s" and "current_step_index s < int (length P)"
  shows "graph_steps D llm (Suc k) Supervisor s g =
           ((Supervisor, merge s (supervisor_node s))
              # fst (graph_steps D llm k Executor (merge s (supervisor_node s)) g),
            snd (graph_steps D llm k Executor (merge s (supervisor_node s)) g))"
    and "executing P Executor (merge s (supervisor_node s))"
proof -
  have "route_rule s = Route_Executor"
    using assms by (auto simp: executing_def route_rule_def untagged_def tagged_def ustr_eq_iff ustr_Nil_iff)
  then show "graph_steps D llm (Suc k) Supervisor s g =
           ((Supervisor, merge s (supervisor_node s))
              # fst (graph_steps D llm k Executor (merge s (supervisor_node s)) g),
            snd (graph_steps D llm k Executor (merge s (supervisor_node s)) g))"
    by (simp add: graph_steps.simps merge_supervisor_next_step path_map_simps Let_def split: prod.split)
  show "executing P Executor (merge s (supervisor_node s))"
    using assms by (simp add: executing_def merge_supervisor_fields)
qed

lemma executor_turn:
  assumes "executing P Executor s"
  shows "graph_steps D llm (Suc k) Executor s g =
           ((Executor, executed llm s g)
              # fst (graph_steps D llm k Supervisor (executed llm s g) (executed_llm llm s g)),
            snd (graph_steps D llm k Supervisor (executed llm s g) (executed_llm llm s g)))"
    and "executing P Supervisor (executed llm s g)"
    and "current_step_index (executed llm s g) = current_step_index s + 1"
proof -
  from assms have guard: "\<not> (plan s = [] \<or> int (length (plan s)) \<le> current_step_index s)"
    and idx: "0 \<le> current_step_index s" "current_step_index s < int (length (plan s))"
    by (auto simp: executing_def)
  obtain explanation g' where
    gen: "llm g (executor_prompt (user_goal s) (plan s ! nat (current_step_index s))) = (explanation, g')"
    by (cases "llm g (executor_prompt (user_goal s) (plan s ! nat (current_step_index s)))")
  define u where "u =
    \<lparr>upd_messages = Some [\<lparr>msg_class = HumanMessage, content = explanation, name = Some (ustr ''Executor'')\<rparr>],
     upd_user_goal = None, upd_plan = None,
     upd_current_step_index = Some (current_step_index s + 1),
     upd_execution_log = Some (execution_log s @
        [log_entry (current_step_index s) (plan s ! nat (current_step_index s)) explanation]),
     upd_next_step = None, upd_status = Some (ustr ''executing'')\<rparr>"
  have ex: "executor_node llm s g = Inr (u, g')"
    using guard idx gen by (simp add: executor_node_def py_index_def Let_def u_def)
  have e1: "executed llm s g = merge s u" and e2: "executed_llm llm s g = g'"
    by (simp_all add: executed_def executed_llm_def ex)
  have m: "messages (merge s u) = messages s @ [\<lparr>msg_class = HumanMessage, content = explanation, name = Some (ustr ''Executor'')\<rparr>]"
    "plan (merge s u) = plan s"
    "current_step_index (merge s u) = current_step_index s + 1"
    "length (execution_log (merge s u)) = Suc (length (execution_log s))"
    by (simp_all add: merge_def u_def overwrite_def add_messages_def)
  show "current_step_index (executed llm s g) = current_step_index s + 1"
    by (simp add: e1 m)
  show "executing P Supervisor (executed llm s g)"
    using assms by (simp add: executing_def e1 m)
  show "graph_steps D llm (Suc k) Executor s g =
           ((Executor, executed llm s g)
              # fst (graph_steps D llm k Supervisor (executed llm s g) (executed_llm llm s g)),
            snd (graph_steps D llm k Supervisor (executed llm s g) (executed_llm llm s g)))"
    by (simp add: graph_steps.simps ex e1 e2 Let_def split: prod.split)
qed

lemma executing_Planner: "\<not> executing P Planner s"
  by (simp add: executing_def)

lemma executing_induct [consumes 1, case_names cut finish continue execute]:
  assumes "executing P nd s"
    and cut: "\<And>nd s g. executing P nd s \<Longrightarrow> Q 0 nd s g"
    and finish: "\<And>k s g. executing P Supervisor s \<Longrightarrow>
           current_step_index s = int (length P) \<Longrightarrow> Q (Suc k) Supervisor s g"
    and continue: "\<And>k s g. executing P Supervisor s \<Longrightarrow>
           current_step_index s < int (length P) \<Longrightarrow>
           executing P Executor (merge s (supervisor_node s)) \<Longrightarrow>
           Q k Executor (merge s (supervisor_node s)) g \<Longrightarrow> Q (Suc k) Supervisor s g"
    and execute: "\<And>k s g. executing P Executor s \<Longrightarrow>
           executing P Supervisor (executed llm s g) \<Longrightarrow>
           Q k Supervisor (executed llm s g) (executed_llm llm s g) \<Longrightarrow>
           Q (Suc k) Executor s g"
  shows "Q k nd s g"
  using assms(1)
proof (induction k arbitrary: nd s g)
  case 0
  then show ?case by (rule cut)
next
  case (Suc k nd s g)
  show ?case
  proof (cases nd)
    case Supervisor
    show ?thesis
    proof (cases "current_step_index s = int (length P)")
      case True
      with Suc.prems Supervisor show ?thesis by (simp add: finish)
    next
      case False
      with Suc.prems Supervisor have lt: "current_step_index s < int (length P)"
        by (simp add: executing_def)
      from Suc.prems Supervisor have ex: "executing P Supervisor s" by simp
      have nxt: "executing P Executor (merge s (supervisor_node s))"
        by (rule supervisor_turn_continue(2) [OF ex lt])
      show ?thesis
        unfolding Supervisor by (rule continue [OF ex lt nxt Suc.IH [OF nxt]])
    qed
  next
    case Planner
    with Suc.prems show ?thesis by (simp add: executing_Planner)
  next
    case Executor
    with Suc.prems have ex: "executing P Executor s" by simp
    have nxt: "executing P Supervisor (executed llm s g)"
      by (rule executor_turn(2) [OF ex])
    show ?thesis
      unfolding Executor by (rule execute [OF ex nxt Suc.IH [OF nxt]])
  qed
qed

lemma calls_Nil: "calls nd [] = 0"
  by (simp add: calls_def)

lemma calls_Cons: "calls nd (t # ts) = (if fst t = nd then 1 else 0) + calls nd ts"
  by (simp add: calls_def)

lemma executing_states:
  assumes "executing P nd s"
  shows "list_all (step_state P s) (fst (graph_steps D llm k nd s g))"
  using assms
proof (induction k nd s g rule: executing_induct [where llm = llm])
  case (cut nd s g)
  then show ?case by (simp add: graph_steps.simps)
next
  case (finish k s g)
  then show ?case
    by (simp add: supervisor_turn_finish [OF finish.hyps] step_state_def
        merge_supervisor_fields executing_def)
next
  case (continue k s g)
  have "step_state P s (Supervisor, merge s (supervisor_node s))"
    using continue.hyps(1) by (simp add: step_state_def merge_supervisor_fields executing_def)
  moreover have "list_all (step_state P s) (fst (graph_steps D llm k Executor (merge s (supervisor_node s)) g))"
    using continue.IH
    by (rule list.pred_mono_strong) (simp add: step_state_def merge_supervisor_fields)
  ultimately show ?case
    by (simp add: supervisor_turn_continue(1) [OF continue.hyps(1,2)])
next
  case (execute k s g)
  have "step_state P s (Executor, executed llm s g)"
    using execute.hyps(2) executor_turn(3) [OF execute.hyps(1), of llm g]
    by (simp add: step_state_def executing_def)
  moreover have "list_all (step_state P s)
      (fst (graph_steps D llm k Supervisor (executed llm s g) (executed_llm llm s g)))"
    using execute.IH
    by (rule list.pred_mono_strong)
       (simp add: step_state_def executor_turn(3) [OF execute.hyps(1), of llm g])
  ultimately show ?case
    by (simp add: executor_turn(1) [OF execute.hyps(1)])
qed

lemma executing_sorted:
  assumes "executing P nd s"
  shows "sorted (current_step_index s # map (\<lambda>t. current_step_index (snd t)) (fst (graph_steps D llm k nd s g)))"
  using assms
proof (induction k nd s g rule: executing_induct [where llm = llm])
  case (cut nd s g)
  then show ?case by (simp add: graph_steps.simps)
next
  case (finish k s g)
  then show ?case
    by (simp add: supervisor_turn_finish [OF finish.hyps] merge_supervisor_fields)
next
  case (continue k s g)
  then show ?case
    by (simp add: supervisor_turn_continue(1) [OF continue.hyps(1,2)] merge_supervisor_fields)
next
  case (execute k s g)
  then show ?case
    by (auto simp add: executor_turn(1) [OF execute.hyps(1)]
        executor_turn(3) [OF execute.hyps(1), of llm g])
qed




lemma executing_executor_turns:
  assumes "executing P nd s"
  shows "\<forall>j \<le> length (fst (graph_steps D llm k nd s g)).
           current_step_index ((s # map snd (fst (graph_steps D llm k nd s g))) ! j)
             = current_step_index s + int (calls Executor (take j (fst (graph_steps D llm k nd s g))))"
  using assms
proof (induction k nd s g rule: executing_induct [where llm = llm])
  case (cut nd s g)
  then show ?case by (simp add: graph_steps.simps calls_Nil)
next
  case (finish k s g)
  show ?case
  proof (intro allI impI)
    fix j assume "j \<le> length (fst (graph_steps D llm (Suc k) Supervisor s g))"
    then have "j = 0 \<or> j = 1"
      by (auto simp: supervisor_turn_finish [OF finish.hyps])
    then show "current_step_index ((s # map snd (fst (graph_steps D llm (Suc k) Supervisor s g))) ! j)
             = current_step_index s + int (calls Executor (take j (fst (graph_steps D llm (Suc k) Supervisor s g))))"
      by (auto simp: supervisor_turn_finish [OF finish.hyps] calls_Nil calls_Cons
          merge_supervisor_fields)
  qed
next
  case (continue k s g)
  show ?case
  proof (intro allI impI)
    fix j assume j: "j \<le> length (fst (graph_steps D llm (Suc k) Supervisor s g))"
    show "current_step_index ((s # map snd (fst (graph_steps D llm (Suc k) Supervisor s g))) ! j)
             = current_step_index s + int (calls Executor (take j (fst (graph_steps D llm (Suc k) Supervisor s g))))"
    proof (cases j)
      case 0
      then show ?thesis by (simp add: calls_Nil)
    next
      case (Suc i)
      with j continue.IH show ?thesis
        by (simp add: supervisor_turn_continue(1) [OF continue.hyps(1,2)] calls_Cons
            merge_supervisor_fields)
    qed
  qed
next
  case (execute k s g)
  show ?case
  proof (intro allI impI)
    fix j assume j: "j \<le> length (fst (graph_steps D llm (Suc k) Executor s g))"
    show "current_step_index ((s # map snd (fst (graph_steps D llm (Suc k) Executor s g))) ! j)
             = current_step_index s + int (calls Executor (take j (fst (graph_steps D llm (Suc k) Executor s g))))"
    proof (cases j)
      case 0
      then show ?thesis by (simp add: calls_Nil)
    next
      case (Suc i)
      with j execute.IH show ?thesis
        by (simp add: executor_turn(1) [OF execute.hyps(1)] calls_Cons
            executor_turn(3) [OF execute.hyps(1), of llm g])
    qed
  qed
qed

lemma executing_nth:
  assumes "executing P nd s" and "j \<le> length (fst (graph_steps D llm k nd s g))"
  shows "plan ((s # map snd (fst (graph_steps D llm k nd s g))) ! j) = P"
    and "int (length (execution_log ((s # map snd (fst (graph_steps D llm k nd s g))) ! j)))
           = current_step_index ((s # map snd (fst (graph_steps D llm k nd s g))) ! j)"
proof -
  let ?T = "fst (graph_steps D llm k nd s g)"
  have all: "list_all (step_state P s) ?T"
    by (rule executing_states [OF assms(1)])
  have "plan ((s # map snd ?T) ! j) = P \<and>
        int (length (execution_log ((s # map snd ?T) ! j)))
           = current_step_index ((s # map snd ?T) ! j)"
  proof (cases j)
    case 0
    with assms(1) show ?thesis by (simp add: executing_def)
  next
    case (Suc i)
    with assms(2) have i: "i < length ?T" by simp
    with all have "step_state P s (?T ! i)" by (simp add: list_all_length)
    with Suc i show ?thesis by (simp add: step_state_def)
  qed
  then show "plan ((s # map snd ?T) ! j) = P"
    and "int (length (execution_log ((s # map snd ?T) ! j)))
           = current_step_index ((s # map snd ?T) ! j)"
    by simp_all
qed

section \<open>The first two turns\<close>

lemma fallback_plan_not_Nil: "fallback_plan \<noteq> []"
  by (simp add: fallback_plan_def)

lemma planned_not_Nil: "planned D llm goal g \<noteq> []"
  by (simp add: planned_def planner_node_def overwrite_def Let_def fallback_plan_not_Nil
      split: prod.split)

lemma initial_state_fields:
  "plan (initial_state goal) = []"
  "current_step_index (initial_state goal) = 0"
  "execution_log (initial_state goal) = []"
  by (simp_all add: initial_state_def)

lemma after_supervisor_fields:
  "messages (after_supervisor goal) = messages (initial_state goal)"
  "plan (after_supervisor goal) = []"
  "current_step_index (after_supervisor goal) = 0"
  "execution_log (after_supervisor goal) = []"
  "next_step (after_supervisor goal) = ustr ''Planner''"
  by (simp_all add: after_supervisor_def merge_supervisor_fields merge_supervisor_next_step)
     (simp_all add: initial_state_def route_rule_def untagged_def)

lemma merge_planner_fields:
  "plan (merge s (fst (planner_node D llm s g)))
     = overwrite [] (upd_plan (fst (planner_node D llm s g)))"
  "current_step_index (merge s (fst (planner_node D llm s g))) = 0"
  "execution_log (merge s (fst (planner_node D llm s g))) = execution_log s"
  "messages (merge s (fst (planner_node D llm s g))) \<noteq> []"
  "name (last (messages (merge s (fst (planner_node D llm s g))))) = Some (ustr ''Planner'')"
  by (simp_all add: merge_def planner_node_def overwrite_def add_messages_def Let_def
      split: prod.split)

lemma after_planner_fields:
  "plan (after_planner D llm goal g) = planned D llm goal g"
  "current_step_index (after_planner D llm goal g) = 0"
  "execution_log (after_planner D llm goal g) = []"
  "messages (after_planner D llm goal g) \<noteq> []"
  "name (last (messages (after_planner D llm goal g))) = Some (ustr ''Planner'')"
  by (simp_all add: after_planner_def planned_def merge_planner_fields after_supervisor_fields
      after_supervisor_def [symmetric])

lemma executing_after_planner:
  "executing (planned D llm goal g) Supervisor (after_planner D llm goal g)"
  using planned_not_Nil [of D llm goal g]
  by (simp add: executing_def after_planner_fields)

lemma graph_stream_0: "graph_stream D llm 0 goal g = ([], Some GraphRecursionError)"
  by (simp add: graph_stream_def graph_steps.simps)

lemma graph_stream_1:
  "graph_stream D llm (Suc 0) goal g = ([(Supervisor, after_supervisor goal)], Some GraphRecursionError)"
  by (simp add: graph_stream_def graph_steps.simps after_supervisor_def [symmetric]
      after_supervisor_fields path_map_simps Let_def)

lemma graph_stream_Suc_Suc:
  "graph_stream D llm (Suc (Suc k)) goal g =
     ((Supervisor, after_supervisor goal) # (Planner, after_planner D llm goal g)
        # fst (graph_steps D llm k Supervisor (after_planner D llm goal g)
                 (snd (planner_node D llm (after_supervisor goal) g))),
      snd (graph_steps D llm k Supervisor (after_planner D llm goal g)
             (snd (planner_node D llm (after_supervisor goal) g))))"
proof -
  obtain u g' where pl: "planner_node D llm (after_supervisor goal) g = (u, g')"
    by (cases "planner_node D llm (after_supervisor goal) g")
  then have ap: "merge (after_supervisor goal) u = after_planner D llm goal g"
    by (simp add: after_planner_def)
  have "graph_steps D llm (Suc k) Planner (after_supervisor goal) g =
          ((Planner, after_planner D llm goal g)
             # fst (graph_steps D llm k Supervisor (after_planner D llm goal g) g'),
           snd (graph_steps D llm k Supervisor (after_planner D llm goal g) g'))"
    by (simp add: graph_steps.simps pl ap Let_def split: prod.split)
  then show ?thesis
    by (simp add: graph_stream_def graph_steps.simps(2) [of _ _ _ Supervisor]
        after_supervisor_def [symmetric] after_supervisor_fields path_map_simps Let_def pl)
qed

lemma limit_cases:
  obtains "(limit::nat) = 0" | "limit = Suc 0" | k where "limit = Suc (Suc k)"
proof (cases limit)
  case 0
  then show ?thesis using that by simp
next
  case (Suc m)
  then show ?thesis using that by (cases m) simp_all
qed

section \<open>Runs\<close>








text \<open>
  C6. In every state a run streams, \<open>0 <= current_step_index <= len(plan)\<close>, and the
  index never decreases from one streamed state to the next.
\<close>

theorem index_bounded_and_monotone:
  "(\<forall>s \<in> set (streamed D llm limit goal g).
      0 \<le> current_step_index s \<and> current_step_index s \<le> int (length (plan s))) \<and>
   sorted (map current_step_index (streamed D llm limit goal g))"
proof -
  let ?P = "planned D llm goal g"
  show ?thesis
  proof (cases limit rule: limit_cases)
    case 1
    then show ?thesis
      by (simp add: streamed_def graph_stream_0 initial_state_fields)
  next
    case 2
    then show ?thesis
      by (simp add: streamed_def graph_stream_1 initial_state_fields after_supervisor_fields)
  next
    case (3 k)
    let ?s2 = "after_planner D llm goal g"
    let ?g2 = "snd (planner_node D llm (after_supervisor goal) g)"
    let ?T = "fst (graph_steps D llm k Supervisor ?s2 ?g2)"
    have ex: "executing ?P Supervisor ?s2" by (rule executing_after_planner)
    have "list_all (step_state ?P ?s2) ?T" by (rule executing_states [OF ex])
    then have states: "\<forall>t \<in> set ?T. 0 \<le> current_step_index (snd t) \<and>
        current_step_index (snd t) \<le> int (length (plan (snd t)))"
      by (auto simp: list_all_iff step_state_def after_planner_fields)
    have srt: "sorted (current_step_index ?s2 # map (\<lambda>t. current_step_index (snd t)) ?T)"
      by (rule executing_sorted [OF ex])
    have m: "map current_step_index (map snd ?T) = map (\<lambda>t. current_step_index (snd t)) ?T"
      by simp
    from states srt show ?thesis
      unfolding streamed_def 3 graph_stream_Suc_Suc
      by (simp add: initial_state_fields after_supervisor_fields after_planner_fields m
          del: map_map)
  qed
qed

theorem index_bounded_and_monotone_witness:
  "monitoring_final \<in> set (streamed (\<lambda>c. False) mock_llm 7 monitoring_goal ()) \<and>
   0 \<le> current_step_index monitoring_final \<and>
   current_step_index monitoring_final \<le> int (length (plan monitoring_final)) \<and>
   map current_step_index (streamed (\<lambda>c. False) mock_llm 7 monitoring_goal ())
     = [0, 0, 0, 0, 1, 1, 2, 2] \<and>
   sorted (map current_step_index (streamed (\<lambda>c. False) mock_llm 7 monitoring_goal ()))"
  using index_bounded_and_monotone [of "\<lambda>c. False" mock_llm 7 monitoring_goal "()"]
  by (simp add: monitoring_streamed monitoring_indices monitoring_final_fields
      initial_state_fields monitoring_turns_def)

text \<open>
  C7. In every state a run streams (the state it starts from is number 0, the state after
  turn \<open>j\<close> is number \<open>j\<close>), the length of \<open>execution_log\<close> is
  \<open>current_step_index\<close>, and both are the number of Executor turns taken so far.
\<close>

theorem log_length_is_index:
  "\<forall>j \<le> length (fst (graph_stream D llm limit goal g)).
     int (length (execution_log (streamed D llm limit goal g ! j)))
       = current_step_index (streamed D llm limit goal g ! j) \<and>
     current_step_index (streamed D llm limit goal g ! j)
       = int (calls Executor (take j (fst (graph_stream D llm limit goal g))))"
proof (intro allI impI)
  fix j
  assume j: "j \<le> length (fst (graph_stream D llm limit goal g))"
  let ?goal = "int (length (execution_log (streamed D llm limit goal g ! j)))
       = current_step_index (streamed D llm limit goal g ! j) \<and>
     current_step_index (streamed D llm limit goal g ! j)
       = int (calls Executor (take j (fst (graph_stream D llm limit goal g))))"
  show ?goal
  proof (cases limit rule: limit_cases)
    case 1
    with j show ?thesis
      by (simp add: streamed_def graph_stream_0 initial_state_fields calls_Nil)
  next
    case 2
    with j have "j = 0 \<or> j = 1" by (auto simp: graph_stream_1)
    then show ?thesis
      by (auto simp: 2 streamed_def graph_stream_1 initial_state_fields after_supervisor_fields
          calls_Nil calls_Cons)
  next
    case (3 k)
    let ?s2 = "after_planner D llm goal g"
    let ?g2 = "snd (planner_node D llm (after_supervisor goal) g)"
    let ?T = "fst (graph_steps D llm k Supervisor ?s2 ?g2)"
    have ex: "executing (planned D llm goal g) Supervisor ?s2" by (rule executing_after_planner)
    consider "j = 0" | "j = Suc 0" | i where "j = Suc (Suc i)"
      by (rule limit_cases)
    then show ?thesis
    proof cases
      case 1
      then show ?thesis
        by (simp add: streamed_def initial_state_fields calls_Nil)
    next
      case 2
      then show ?thesis
        by (simp add: 3 streamed_def graph_stream_Suc_Suc after_supervisor_fields
            calls_Nil calls_Cons)
    next
      case (3 i)
      with j \<open>limit = Suc (Suc k)\<close> have i: "i \<le> length ?T"
        by (simp add: graph_stream_Suc_Suc)
      have a: "int (length (execution_log ((?s2 # map snd ?T) ! i)))
                 = current_step_index ((?s2 # map snd ?T) ! i)"
        by (rule executing_nth(2) [OF ex i])
      have b: "current_step_index ((?s2 # map snd ?T) ! i)
                 = current_step_index ?s2 + int (calls Executor (take i ?T))"
        using executing_executor_turns [OF ex, of D llm k ?g2] i by blast
      from a b show ?thesis
        by (simp add: 3 \<open>limit = Suc (Suc k)\<close> streamed_def graph_stream_Suc_Suc calls_Cons
            after_planner_fields)
    qed
  qed
qed

theorem log_length_is_index_witness:
  "6 \<le> length (fst (graph_stream (\<lambda>c. False) mock_llm 7 monitoring_goal ())) \<and>
   length (execution_log (streamed (\<lambda>c. False) mock_llm 7 monitoring_goal () ! 6)) = 2 \<and>
   current_step_index (streamed (\<lambda>c. False) mock_llm 7 monitoring_goal () ! 6) = 2 \<and>
   calls Executor (take 6 (fst (graph_stream (\<lambda>c. False) mock_llm 7 monitoring_goal ()))) = 2"
  using log_length_is_index [of "\<lambda>c. False" mock_llm 7 monitoring_goal "()"]
  by (simp add: monitoring_streamed monitoring_turns_taken monitoring_turns_facts)

text \<open>
  C10. In a run the Planner is called at the second turn and at no other, and every state
  from that turn on holds the plan it wrote; the Supervisor never decides for the Planner
  in a state whose last message carries an author tag.
\<close>

theorem plan_fixed_after_planner:
  "(\<forall>i < length (fst (graph_stream D llm limit goal g)).
      (fst (fst (graph_stream D llm limit goal g) ! i) = Planner \<longleftrightarrow> i = 1) \<and>
      (1 \<le> i \<longrightarrow> plan (snd (fst (graph_stream D llm limit goal g) ! i)) = planned D llm goal g)) \<and>
   (\<forall>state. messages state \<noteq> [] \<and> truthy (name (last (messages state))) \<longrightarrow>
      upd_next_step (supervisor_node state) \<noteq> Some (ustr ''Planner''))"
proof (intro conjI allI impI)
  fix state :: agent_state
  assume "messages state \<noteq> [] \<and> truthy (name (last (messages state)))"
  then show "upd_next_step (supervisor_node state) \<noteq> Some (ustr ''Planner'')"
    by (simp add: supervisor_not_planner)
next
  fix i
  assume i: "i < length (fst (graph_stream D llm limit goal g))"
  have both: "(fst (fst (graph_stream D llm limit goal g) ! i) = Planner \<longleftrightarrow> i = 1) \<and>
      (1 \<le> i \<longrightarrow> plan (snd (fst (graph_stream D llm limit goal g) ! i)) = planned D llm goal g)"
  proof (cases limit rule: limit_cases)
    case 1
    with i show ?thesis by (simp add: graph_stream_0)
  next
    case 2
    with i show ?thesis by (simp add: graph_stream_1)
  next
    case (3 k)
    let ?s2 = "after_planner D llm goal g"
    let ?g2 = "snd (planner_node D llm (after_supervisor goal) g)"
    let ?T = "fst (graph_steps D llm k Supervisor ?s2 ?g2)"
    have ex: "executing (planned D llm goal g) Supervisor ?s2" by (rule executing_after_planner)
    have all: "list_all (step_state (planned D llm goal g) ?s2) ?T"
      by (rule executing_states [OF ex])
    consider "i = 0" | "i = Suc 0" | m where "i = Suc (Suc m)"
      by (rule limit_cases)
    then show ?thesis
    proof cases
      case 1
      then show ?thesis by (simp add: 3 graph_stream_Suc_Suc)
    next
      case 2
      then show ?thesis by (simp add: 3 graph_stream_Suc_Suc after_planner_fields)
    next
      case (3 m)
      with i \<open>limit = Suc (Suc k)\<close> have m: "m < length ?T"
        by (simp add: graph_stream_Suc_Suc)
      with all have "step_state (planned D llm goal g) ?s2 (?T ! m)"
        by (simp add: list_all_length)
      then show ?thesis
        by (simp add: 3 \<open>limit = Suc (Suc k)\<close> graph_stream_Suc_Suc step_state_def)
    qed
  qed
  from both show "fst (fst (graph_stream D llm limit goal g) ! i) = Planner \<longleftrightarrow> i = 1"
    by simp
  from both show "plan (snd (fst (graph_stream D llm limit goal g) ! i)) = planned D llm goal g"
    if "1 \<le> i" using that by simp
qed

theorem plan_fixed_after_planner_witness:
  "5 < length (fst (graph_stream (\<lambda>c. False) mock_llm 7 monitoring_goal ())) \<and>
   fst (fst (graph_stream (\<lambda>c. False) mock_llm 7 monitoring_goal ()) ! 1) = Planner \<and>
   fst (fst (graph_stream (\<lambda>c. False) mock_llm 7 monitoring_goal ()) ! 5) = Executor \<and>
   plan (snd (fst (graph_stream (\<lambda>c. False) mock_llm 7 monitoring_goal ()) ! 5))
     = planned (\<lambda>c. False) mock_llm monitoring_goal () \<and>
   messages monitoring_final \<noteq> [] \<and>
   truthy (name (last (messages monitoring_final))) \<and>
   upd_next_step (supervisor_node monitoring_final) = Some (ustr ''FINISH'')"
  using plan_fixed_after_planner [of "\<lambda>c. False" mock_llm 7 monitoring_goal "()"]
  by (simp add: monitoring_turns_taken monitoring_turns_facts monitoring_planned
      monitoring_final_fields truthy_def ustr_Nil_iff supervisor_node_def no_update_def
      ustr_eq_iff nth_map [symmetric, of _ monitoring_turns fst])

text \<open>
  C5 (as amended). In the scenario, under a recursion limit of at least 8 (the default is
  25), the run takes seven turns (Supervisor, Planner, Supervisor, Executor, Supervisor,
  Executor, Supervisor) and returns a final state with
  the plan \<open>["Install agent", "Configure dashboards"]\<close>, \<open>current_step_index\<close> 2 and two
  log entries; its \<open>status\<close> is "supervising" and its \<open>next_step\<close> is FINISH, since the
  run ends with the Supervisor turn that decides FINISH. The \<open>status\<close> "executing" holds
  of the state after the last Executor turn, where the Supervisor's decision is FINISH.
\<close>

theorem monitoring_scenario:
  "8 \<le> limit \<Longrightarrow>
   run_once D mock_llm limit monitoring_goal () = Inr monitoring_final \<and>
   plan monitoring_final = [ustr ''Install agent'', ustr ''Configure dashboards''] \<and>
   current_step_index monitoring_final = 2 \<and>
   length (execution_log monitoring_final) = 2 \<and>
   status monitoring_final = ustr ''supervising'' \<and>
   next_step monitoring_final = ustr ''FINISH'' \<and>
   map fst (fst (graph_stream D mock_llm limit monitoring_goal ()))
     = [Supervisor, Planner, Supervisor, Executor, Supervisor, Executor, Supervisor] \<and>
   status (streamed D mock_llm limit monitoring_goal () ! 6) = ustr ''executing'' \<and>
   current_step_index (streamed D mock_llm limit monitoring_goal () ! 6) = 2 \<and>
   length (execution_log (streamed D mock_llm limit monitoring_goal () ! 6)) = 2 \<and>
   upd_next_step (supervisor_node (streamed D mock_llm limit monitoring_goal () ! 6))
     = Some (ustr ''FINISH'')"
proof -
  assume limit: "8 \<le> limit"
  then have seven: "7 \<le> limit" by simp
  have six: "streamed D mock_llm limit monitoring_goal () ! 6 = snd (monitoring_turns ! 5)"
    by (simp add: monitoring_streamed [OF seven] monitoring_turns_facts)
  have "route_rule (snd (monitoring_turns ! 5)) = Route_Finish"
    by (simp add: route_rule_def monitoring_turns_facts monitoring_final_fields untagged_def
        tagged_def ustr_eq_iff ustr_Nil_iff)
  then have fin: "upd_next_step (supervisor_node (snd (monitoring_turns ! 5))) = Some (ustr ''FINISH'')"
    by (simp add: supervisor_next_step)
  show ?thesis
    by (simp add: monitoring_run [OF limit] monitoring_stream [OF limit] six fin
        monitoring_turns_facts monitoring_final_fields)
qed

theorem monitoring_scenario_witness:
  "(8::nat) \<le> 25 \<and>
   run_once (\<lambda>c. False) mock_llm 25 monitoring_goal () = Inr monitoring_final \<and>
   status monitoring_final = ustr ''supervising'' \<and>
   status (streamed (\<lambda>c. False) mock_llm 25 monitoring_goal () ! 6) = ustr ''executing''"
  using monitoring_scenario [of 25 "\<lambda>c. False"] by simp

text \<open>
  The claim as the specification words it fails: no final state of the scenario has the
  \<open>status\<close> "executing".
\<close>

theorem final_status_executing_counterexample:
  "\<not> (\<exists>final. run_once (\<lambda>c. False) mock_llm 25 monitoring_goal () = Inr final \<and>
         plan final = [ustr ''Install agent'', ustr ''Configure dashboards''] \<and>
         current_step_index final = 2 \<and>
         length (execution_log final) = 2 \<and>
         status final = ustr ''executing'')"
  by (simp add: monitoring_run monitoring_final_fields ustr_eq_iff)

end
